theory Spec2Isabelle
  imports Main
begin

section \<open>The sketchbook widget contribution\<close>

text \<open>
  A shallow embedding of \<^verbatim>\<open>sketchbook-widget-contribution.ts\<close>: the command guards,
  the three command handlers, the tab-change handler and the menu registration of
  \<^verbatim>\<open>SketchbookWidgetContribution\<close>.

  The class is glue over services of the host framework. The services it mutates (the
  menu registry, the disposable collection, the tree selection) are fields of an explicit
  state; the services it only queries (preferences, the shell's current widget, the
  sketch service, the file service, the tree model's lookup) are fields of an
  environment that comes with each event. Every call that leaves the class is also
  appended to a trace, so that the order of the calls can be stated.

  The context-menu handler is in two halves, before and after the one place where it
  waits for a service, so that a second invocation can start between the halves of a
  first one. The other handlers run as one step.
\<close>

subsection \<open>Data\<close>

text \<open>
  A \<^verbatim>\<open>URI\<close> is kept as the string its \<^verbatim>\<open>toString()\<close> returns; a sketch's
  \<^verbatim>\<open>uri\<close> is already a string in the source.
\<close>

datatype uri = URI (toString: string)

record sketch =
  sketch_uri :: string

text \<open>
  A tree node has a URI and an id. \<open>isSketchDir\<close> is what
  \<^verbatim>\<open>SketchbookTree.SketchDirNode.is\<close> finds out about it and \<open>selectable\<close> what
  \<^verbatim>\<open>SelectableTreeNode.is\<close> does.
\<close>

record tree_node =
  uri :: uri
  node_id :: string
  isSketchDir :: bool
  selectable :: bool

text \<open>The shell's current widget: \<^verbatim>\<open>Navigatable.is\<close> holds of the first kind only.\<close>

datatype widget = Navigatable (getResourceUri: "uri option") | OtherWidget

text \<open>
  The element a context menu is opened on. Coordinates are of any type with an addition:
  nothing below depends on how JavaScript numbers add.
\<close>

record 'n dom_rect =
  rect_left :: 'n
  rect_top :: 'n

record 'n element =
  getBoundingClientRect :: "'n dom_rect"
  offsetHeight :: 'n

record 'n mouse_event =
  target :: "'n element option"

text \<open>
  An object passed to a command. Its \<open>node\<close> is \<open>None\<close> when the object has no
  \<^verbatim>\<open>node\<close> property, \<open>Some None\<close> when it has one whose value is \<^verbatim>\<open>undefined\<close>
  and \<open>Some (Some n)\<close> when the value is the tree node \<open>n\<close>. Its \<open>event\<close> is
  \<open>None\<close> when \<^verbatim>\<open>arg.event\<close> is \<^verbatim>\<open>undefined\<close>.
\<close>

record 'n command_arg =
  node :: "tree_node option option"
  event :: "'n mouse_event option"

text \<open>
  The argument of a command invocation is untyped in the source. It is falsy
  (\<^verbatim>\<open>undefined\<close>, \<^verbatim>\<open>null\<close>, \<^verbatim>\<open>false\<close>, \<^verbatim>\<open>0\<close>, the empty string), or a truthy
  primitive (a number, a string, \<^verbatim>\<open>true\<close>), or an object. On a truthy primitive the
  operator \<^verbatim>\<open>in\<close> throws a \<^verbatim>\<open>TypeError\<close>, and reading a property of it gives
  \<^verbatim>\<open>undefined\<close>.
\<close>

datatype 'n invocation_arg = Falsy | Primitive | Object "'n command_arg"

text \<open>
  The three \<^verbatim>\<open>SketchbookCommands\<close> constants and the view's toggle command
  (\<^verbatim>\<open>'arduino-sketchbook-widget:toggle'\<close>). The strings of their ids and labels are
  declared outside this file; a command stands for its id, different commands having
  different ids, and \<open>Label c\<close> stands for the label of \<open>c\<close>. The label of the
  toggle action is the widget's name.
\<close>

datatype command =
  OPEN_NEW_WINDOW | REVEAL_IN_FINDER | OPEN_SKETCHBOOK_CONTEXT_MENU | TOGGLE_COMMAND

datatype label = Label command | Text string

definition SKETCHBOOK__CONTEXT :: "string list" where
  "SKETCHBOOK__CONTEXT = [''arduino-sketchbook--context'']"

definition SKETCHBOOK__CONTEXT__MAIN_GROUP :: "string list" where
  "SKETCHBOOK__CONTEXT__MAIN_GROUP = SKETCHBOOK__CONTEXT @ [''0_main'']"

subsection \<open>The host framework: menu registry and disposable collection\<close>

text \<open>
  A menu node is an action bound to a command (with a label and an optional order), or
  a placeholder: a label under a menu path with no command behind it. An action's id is
  its command's id, a placeholder's id is made from its menu path.
\<close>

datatype menu_node =
  ActionMenuNode command label "string option"
| PlaceholderMenuNode "string list" label

datatype menu_id = CommandId command | PlaceholderId "string list"

fun menu_node_id :: "menu_node \<Rightarrow> menu_id" where
  "menu_node_id (ActionMenuNode c l ord) = CommandId c"
| "menu_node_id (PlaceholderMenuNode p l) = PlaceholderId p"

text \<open>The command an entry triggers when clicked; a placeholder triggers none.\<close>

fun menu_node_command :: "menu_node \<Rightarrow> command option" where
  "menu_node_command (ActionMenuNode c l ord) = Some c"
| "menu_node_command (PlaceholderMenuNode p l) = None"

record 'n anchor =
  anchor_x :: 'n
  anchor_y :: 'n

record 'n render_options =
  menuPath :: "string list"
  anchor :: "'n anchor"
  args :: "'n command_arg"

text \<open>Every call the class makes on a service that acts.\<close>

datatype 'n effect =
  RegisterMenuNode "string list" menu_node
| RegisterMenuAction "string list" menu_node
| UnregisterMenuNode menu_id
| UnregisterMenuAction command
| Render "'n render_options"
| RevealFile uri
| SelectNode tree_node
| ToUnderlyingResource uri
| WorkspaceOpen uri
| OpenPath string
| MainMenuUpdate

text \<open>
  The two closures the context-menu handler wraps in \<^verbatim>\<open>Disposable.create\<close>.
\<close>

datatype disposable =
  DoUnregisterMenuNode menu_id
| DoUnregisterMenuAction command

text \<open>
  The state: the children of every menu group of the registry, the disposable
  collection, the tree model's selection, and the trace.
\<close>

record 'n state =
  menuRegistry :: "string list \<Rightarrow> menu_node list"
  toDisposeBeforeNewContextMenu :: "disposable list"
  selectedNodes :: "tree_node list"
  trace :: "'n effect list"

text \<open>What an event finds when it queries the other services.\<close>

record env =
  autoReveal :: bool
  currentWidget :: "widget option"
  revealFile :: "uri \<Rightarrow> tree_node option"
  currentSketch :: "sketch option"
  toUnderlyingResource :: "uri \<Rightarrow> uri"
  openPath :: "string \<Rightarrow> string"

datatype error = TypeError | NoActiveHandler

datatype completion = Returned | Threw error

definition emit :: "'n effect \<Rightarrow> 'n state \<Rightarrow> 'n state" where
  "emit e s = s\<lparr>trace := trace s @ [e]\<rparr>"

text \<open>
  The registry: registering adds the node to the children of the group at the menu path;
  unregistering by id takes, out of every group, the first child with that id.
  \<^verbatim>\<open>unregisterMenuAction\<close> without a menu path unregisters the node whose id is the
  command's.
\<close>

fun removeNode :: "menu_id \<Rightarrow> menu_node list \<Rightarrow> menu_node list" where
  "removeNode i [] = []"
| "removeNode i (n # ns) = (if menu_node_id n = i then ns else n # removeNode i ns)"

definition addNode :: "string list \<Rightarrow> menu_node \<Rightarrow> 'n state \<Rightarrow> 'n state" where
  "addNode p n s = s\<lparr>menuRegistry := (menuRegistry s)(p := menuRegistry s p @ [n])\<rparr>"

definition removeNodes :: "menu_id \<Rightarrow> 'n state \<Rightarrow> 'n state" where
  "removeNodes i s = s\<lparr>menuRegistry := (\<lambda>p. removeNode i (menuRegistry s p))\<rparr>"

definition registerMenuNode :: "string list \<Rightarrow> menu_node \<Rightarrow> 'n state \<Rightarrow> 'n state" where
  "registerMenuNode p n s = emit (RegisterMenuNode p n) (addNode p n s)"

definition registerMenuAction :: "string list \<Rightarrow> menu_node \<Rightarrow> 'n state \<Rightarrow> 'n state" where
  "registerMenuAction p n s = emit (RegisterMenuAction p n) (addNode p n s)"

definition unregisterMenuNode :: "menu_id \<Rightarrow> 'n state \<Rightarrow> 'n state" where
  "unregisterMenuNode i s = emit (UnregisterMenuNode i) (removeNodes i s)"

definition unregisterMenuAction :: "command \<Rightarrow> 'n state \<Rightarrow> 'n state" where
  "unregisterMenuAction c s = emit (UnregisterMenuAction c) (removeNodes (CommandId c) s)"

text \<open>
  The disposable collection: \<^verbatim>\<open>push\<close> appends; \<^verbatim>\<open>dispose\<close> pops and runs the
  disposables from the last one back until the collection is empty.
\<close>

fun run_disposable :: "disposable \<Rightarrow> 'n state \<Rightarrow> 'n state" where
  "run_disposable (DoUnregisterMenuNode i) s = unregisterMenuNode i s"
| "run_disposable (DoUnregisterMenuAction c) s = unregisterMenuAction c s"

definition push :: "disposable \<Rightarrow> 'n state \<Rightarrow> 'n state" where
  "push d s = s\<lparr>toDisposeBeforeNewContextMenu := toDisposeBeforeNewContextMenu s @ [d]\<rparr>"

definition dispose :: "'n state \<Rightarrow> 'n state" where
  "dispose s =
     (fold run_disposable (rev (toDisposeBeforeNewContextMenu s)) s)
       \<lparr>toDisposeBeforeNewContextMenu := []\<rparr>"

text \<open>The other services that act: each call is recorded.\<close>

definition render :: "'n render_options \<Rightarrow> 'n state \<Rightarrow> 'n state" where
  "render opts s = emit (Render opts) s"

text \<open>
  Modelled from the spec: \<^verbatim>\<open>selectNode\<close> of the tree model, which is outside this file;
  the spec has the selection as a single selection, so the node replaces it.
\<close>

definition selectNode :: "tree_node \<Rightarrow> 'n state \<Rightarrow> 'n state" where
  "selectNode n s = emit (SelectNode n) (s\<lparr>selectedNodes := [n]\<rparr>)"

definition model_revealFile :: "env \<Rightarrow> uri \<Rightarrow> 'n state \<Rightarrow> tree_node option \<times> 'n state" where
  "model_revealFile e u s = (revealFile e u, emit (RevealFile u) s)"

definition fileService_toUnderlyingResource :: "env \<Rightarrow> uri \<Rightarrow> 'n state \<Rightarrow> uri \<times> 'n state" where
  "fileService_toUnderlyingResource e u s = (toUnderlyingResource e u, emit (ToUnderlyingResource u) s)"

definition workspaceService_open :: "uri \<Rightarrow> 'n state \<Rightarrow> 'n state" where
  "workspaceService_open u s = emit (WorkspaceOpen u) s"

definition shell_openPath :: "env \<Rightarrow> string \<Rightarrow> 'n state \<Rightarrow> string \<times> 'n state" where
  "shell_openPath e p s = (openPath e p, emit (OpenPath p) s)"

definition mainMenuManager_update :: "'n state \<Rightarrow> 'n state" where
  "mainMenuManager_update s = emit MainMenuUpdate s"

text \<open>
  Modelled from the spec: \<^verbatim>\<open>SketchbookTree.SketchDirNode.is\<close>, declared in
  \<^verbatim>\<open>sketchbook-tree.ts\<close>; it is false of \<^verbatim>\<open>undefined\<close> and tells of a node
  whether it is a sketch directory.
\<close>

definition SketchDirNode_is :: "tree_node option \<Rightarrow> bool" where
  "SketchDirNode_is v = (case v of None \<Rightarrow> False | Some n \<Rightarrow> isSketchDir n)"

subsection \<open>Tab change\<close>

text \<open>
  \<^verbatim>\<open>selectWidgetFileNode\<close>: for a navigatable widget with a resource URI the tree model
  is asked to reveal the file, and a selectable node it returns is selected.
\<close>

definition selectWidgetFileNode :: "env \<Rightarrow> widget option \<Rightarrow> 'n state \<Rightarrow> completion \<times> 'n state" where
  "selectWidgetFileNode e w s =
     (case w of
        Some (Navigatable resourceUri) \<Rightarrow>
          (case resourceUri of
             Some u \<Rightarrow>
               (let (found, s1) = model_revealFile e u s in
                case found of
                  Some n \<Rightarrow> if selectable n then (Returned, selectNode n s1) else (Returned, s1)
                | None \<Rightarrow> (Returned, s1))
           | None \<Rightarrow> (Returned, s))
      | _ \<Rightarrow> (Returned, s))"

definition onCurrentWidgetChangedHandler :: "env \<Rightarrow> 'n state \<Rightarrow> 'n state" where
  "onCurrentWidgetChangedHandler e s =
     (if autoReveal e then snd (selectWidgetFileNode e (currentWidget e) s) else s)"

text \<open>\<^verbatim>\<open>onStart\<close>: the listener on preference changes.\<close>

definition onPreferenceChanged :: "string \<Rightarrow> 'n state \<Rightarrow> 'n state" where
  "onPreferenceChanged preferenceName s =
     (if preferenceName = ''arduino.sketchbook.showAllFiles'' then mainMenuManager_update s else s)"

subsection \<open>Command guards\<close>

text \<open>
  The source writes the guard \<^verbatim>\<open>!!arg && 'node' in arg && SketchDirNode.is(arg.node)\<close>
  six times; each copy is a definition. The conjunction stops at its first false operand,
  and \<^verbatim>\<open>'node' in arg\<close> throws when \<^verbatim>\<open>arg\<close> is a truthy primitive.
\<close>

definition OPEN_NEW_WINDOW_isEnabled :: "'n invocation_arg \<Rightarrow> error + bool" where
  "OPEN_NEW_WINDOW_isEnabled arg =
     (case arg of
        Falsy \<Rightarrow> Inr False
      | Primitive \<Rightarrow> Inl TypeError
      | Object a \<Rightarrow>
          (case node a of None \<Rightarrow> Inr False | Some v \<Rightarrow> Inr (SketchDirNode_is v)))"

definition OPEN_NEW_WINDOW_isVisible :: "'n invocation_arg \<Rightarrow> error + bool" where
  "OPEN_NEW_WINDOW_isVisible arg =
     (case arg of
        Falsy \<Rightarrow> Inr False
      | Primitive \<Rightarrow> Inl TypeError
      | Object a \<Rightarrow>
          (case node a of None \<Rightarrow> Inr False | Some v \<Rightarrow> Inr (SketchDirNode_is v)))"

definition REVEAL_IN_FINDER_isEnabled :: "'n invocation_arg \<Rightarrow> error + bool" where
  "REVEAL_IN_FINDER_isEnabled arg =
     (case arg of
        Falsy \<Rightarrow> Inr False
      | Primitive \<Rightarrow> Inl TypeError
      | Object a \<Rightarrow>
          (case node a of None \<Rightarrow> Inr False | Some v \<Rightarrow> Inr (SketchDirNode_is v)))"

definition REVEAL_IN_FINDER_isVisible :: "'n invocation_arg \<Rightarrow> error + bool" where
  "REVEAL_IN_FINDER_isVisible arg =
     (case arg of
        Falsy \<Rightarrow> Inr False
      | Primitive \<Rightarrow> Inl TypeError
      | Object a \<Rightarrow>
          (case node a of None \<Rightarrow> Inr False | Some v \<Rightarrow> Inr (SketchDirNode_is v)))"

definition OPEN_SKETCHBOOK_CONTEXT_MENU_isEnabled :: "'n invocation_arg \<Rightarrow> error + bool" where
  "OPEN_SKETCHBOOK_CONTEXT_MENU_isEnabled arg =
     (case arg of
        Falsy \<Rightarrow> Inr False
      | Primitive \<Rightarrow> Inl TypeError
      | Object a \<Rightarrow>
          (case node a of None \<Rightarrow> Inr False | Some v \<Rightarrow> Inr (SketchDirNode_is v)))"

definition OPEN_SKETCHBOOK_CONTEXT_MENU_isVisible :: "'n invocation_arg \<Rightarrow> error + bool" where
  "OPEN_SKETCHBOOK_CONTEXT_MENU_isVisible arg =
     (case arg of
        Falsy \<Rightarrow> Inr False
      | Primitive \<Rightarrow> Inl TypeError
      | Object a \<Rightarrow>
          (case node a of None \<Rightarrow> Inr False | Some v \<Rightarrow> Inr (SketchDirNode_is v)))"

text \<open>
  The guard in the spec's words: the argument is truthy, carries a \<^verbatim>\<open>node\<close> property,
  and that node is a sketch-directory node.
\<close>

definition carries_sketch_dir_node :: "'n invocation_arg \<Rightarrow> bool" where
  "carries_sketch_dir_node arg =
     (\<exists>a v n. arg = Object a \<and> node a = Some v \<and> v = Some n \<and> isSketchDir n)"

text \<open>
  Modelled from the spec: the command registry of the host framework, which is outside
  this file. The spec has a command enabled only when its guard holds of the invocation
  argument; so the registry runs a handler when the guard returned true, and otherwise
  runs nothing and fails, with the guard's error when the guard threw.
\<close>

definition executeCommand ::
  "('a \<Rightarrow> error + bool) \<Rightarrow> ('a \<Rightarrow> 's \<Rightarrow> completion \<times> 's) \<Rightarrow> 'a \<Rightarrow> 's \<Rightarrow> completion \<times> 's" where
  "executeCommand isEnabled execute arg s =
     (case isEnabled arg of
        Inl err \<Rightarrow> (Threw err, s)
      | Inr enabled \<Rightarrow> if enabled then execute arg s else (Threw NoActiveHandler, s))"

subsection \<open>Command handlers\<close>

text \<open>
  Reading \<^verbatim>\<open>arg.node.uri\<close> or \<^verbatim>\<open>arg.node.id\<close> throws a \<^verbatim>\<open>TypeError\<close> when
  \<^verbatim>\<open>arg\<close> or \<^verbatim>\<open>arg.node\<close> is \<^verbatim>\<open>undefined\<close>, which is the case of every
  argument that is not an object with a node; a handler that throws leaves the state as
  it was at the throw.
\<close>

definition OPEN_NEW_WINDOW_execute ::
  "env \<Rightarrow> 'n invocation_arg \<Rightarrow> 'n state \<Rightarrow> completion \<times> 'n state" where
  "OPEN_NEW_WINDOW_execute e arg s =
     (case arg of
        Object a \<Rightarrow>
          (case node a of
             Some (Some n) \<Rightarrow>
               (let (underlying, s1) = fileService_toUnderlyingResource e (uri n) s
                in (Returned, workspaceService_open underlying s1))
           | _ \<Rightarrow> (Threw TypeError, s))
      | _ \<Rightarrow> (Threw TypeError, s))"

definition REVEAL_IN_FINDER_execute ::
  "env \<Rightarrow> 'n invocation_arg \<Rightarrow> 'n state \<Rightarrow> completion \<times> 'n state" where
  "REVEAL_IN_FINDER_execute e arg s =
     (case arg of
        Object a \<Rightarrow>
          (case node a of
             Some (Some n) \<Rightarrow>
               (let (opened, s1) = shell_openPath e (node_id n) s
                in (Returned, s1))
           | _ \<Rightarrow> (Threw TypeError, s))
      | _ \<Rightarrow> (Threw TypeError, s))"

text \<open>
  The test \<^verbatim>\<open>currentSketch && currentSketch.uri === arg.node.uri.toString()\<close> of the
  context-menu handler: without a current sketch the node is not read.
\<close>

definition isCurrentSketch :: "env \<Rightarrow> 'n command_arg \<Rightarrow> error + bool" where
  "isCurrentSketch e a =
     (case currentSketch e of
        None \<Rightarrow> Inr False
      | Some sk \<Rightarrow>
          (case node a of
             Some (Some n) \<Rightarrow> Inr (sketch_uri sk = toString (uri n))
           | _ \<Rightarrow> Inl TypeError))"

definition placeholder :: menu_node where
  "placeholder = PlaceholderMenuNode SKETCHBOOK__CONTEXT__MAIN_GROUP (Label OPEN_NEW_WINDOW)"

definition openNewWindowAction :: menu_node where
  "openNewWindowAction = ActionMenuNode OPEN_NEW_WINDOW (Label OPEN_NEW_WINDOW) None"

text \<open>
  The context-menu handler waits once, for \<^verbatim>\<open>currentSketch()\<close>. Up to there it disposes
  the collection and reads \<^verbatim>\<open>arg.event.target\<close>; it is then either done (it threw, or
  returned for want of a target) or waiting, with its argument and the element.
\<close>

datatype 'n suspension =
  Completed completion
| AwaitingCurrentSketch "'n command_arg" "'n element"

definition context_menu_until_await ::
  "'n invocation_arg \<Rightarrow> 'n state \<Rightarrow> 'n suspension \<times> 'n state" where
  "context_menu_until_await arg s =
     (let s1 = dispose s in
      case arg of
        Object a \<Rightarrow>
          (case event a of
             None \<Rightarrow> (Completed (Threw TypeError), s1)
           | Some ev \<Rightarrow>
               (case target ev of
                  None \<Rightarrow> (Completed Returned, s1)
                | Some container \<Rightarrow> (AwaitingCurrentSketch a container, s1)))
      | _ \<Rightarrow> (Completed (Threw TypeError), s1))"

text \<open>
  What the handler does once the sketch service has answered, in the state it finds
  then.
\<close>

definition context_menu_after_await ::
  "env \<Rightarrow> ('n::plus) command_arg \<Rightarrow> 'n element \<Rightarrow> 'n state \<Rightarrow> completion \<times> 'n state" where
  "context_menu_after_await e a container s1 =
     (case isCurrentSketch e a of
        Inl err \<Rightarrow> (Threw err, s1)
      | Inr current \<Rightarrow>
          (let s2 =
             (if current then
                push (DoUnregisterMenuNode (menu_node_id placeholder))
                  (registerMenuNode SKETCHBOOK__CONTEXT__MAIN_GROUP placeholder s1)
              else
                push (DoUnregisterMenuAction OPEN_NEW_WINDOW)
                  (registerMenuAction SKETCHBOOK__CONTEXT__MAIN_GROUP openNewWindowAction s1));
               options =
                 \<lparr>menuPath = SKETCHBOOK__CONTEXT,
                  anchor =
                    \<lparr>anchor_x = rect_left (getBoundingClientRect container),
                     anchor_y =
                       rect_top (getBoundingClientRect container) + offsetHeight container\<rparr>,
                  args = a\<rparr>
           in (Returned, render options s2)))"

text \<open>The handler run from its first statement to its last, with nothing in between.\<close>

definition OPEN_SKETCHBOOK_CONTEXT_MENU_execute ::
  "env \<Rightarrow> ('n::plus) invocation_arg \<Rightarrow> 'n state \<Rightarrow> completion \<times> 'n state" where
  "OPEN_SKETCHBOOK_CONTEXT_MENU_execute e arg s =
     (case context_menu_until_await arg s of
        (Completed c, s1) \<Rightarrow> (c, s1)
      | (AwaitingCurrentSketch a container, s1) \<Rightarrow> context_menu_after_await e a container s1)"

subsection \<open>Menus and the life of the contribution\<close>

text \<open>
  \<^verbatim>\<open>registerMenus\<close>: the inherited method registers the view's toggle action under the
  framework's list of views, this one takes it out again and registers the
  reveal-in-file-system action in the main group of the context menu.
\<close>

definition VIEW_VIEWS :: "string list" where
  "VIEW_VIEWS = [''menubar'', ''4_view'', ''1_views'']"

definition super_registerMenus :: "'n state \<Rightarrow> 'n state" where
  "super_registerMenus s =
     registerMenuAction VIEW_VIEWS (ActionMenuNode TOGGLE_COMMAND (Text ''Sketchbook'') None) s"

definition registerMenus :: "'n state \<Rightarrow> 'n state" where
  "registerMenus s =
     registerMenuAction SKETCHBOOK__CONTEXT__MAIN_GROUP
       (ActionMenuNode REVEAL_IN_FINDER (Label REVEAL_IN_FINDER) (Some ''0''))
       (unregisterMenuAction TOGGLE_COMMAND (super_registerMenus s))"

definition initial_state :: "'n state" where
  "initial_state =
     registerMenus
       \<lparr>menuRegistry = (\<lambda>p. []), toDisposeBeforeNewContextMenu = [],
        selectedNodes = [], trace = []\<rparr>"

text \<open>
  A state is reachable when a sequence of events leads to it from the initial one, each
  event handled to its end before the next one starts. The handlers are run on every
  argument, also on those the guards refuse.
\<close>

datatype 'n host_event =
  ContextMenuCommand env "'n invocation_arg"
| OpenNewWindowCommand env "'n invocation_arg"
| RevealInFinderCommand env "'n invocation_arg"
| CurrentWidgetChanged env
| PreferenceChanged string

fun handle :: "('n::plus) host_event \<Rightarrow> 'n state \<Rightarrow> 'n state" where
  "handle (ContextMenuCommand e arg) s = snd (OPEN_SKETCHBOOK_CONTEXT_MENU_execute e arg s)"
| "handle (OpenNewWindowCommand e arg) s = snd (OPEN_NEW_WINDOW_execute e arg s)"
| "handle (RevealInFinderCommand e arg) s = snd (REVEAL_IN_FINDER_execute e arg s)"
| "handle (CurrentWidgetChanged e) s = onCurrentWidgetChangedHandler e s"
| "handle (PreferenceChanged preferenceName) s = onPreferenceChanged preferenceName s"

inductive reachable :: "('n::plus) state \<Rightarrow> bool" where
  initial: "reachable initial_state"
| after: "reachable s \<Longrightarrow> reachable (handle ev s)"

text \<open>
  The open-in-new-window entries of the context menu: the children of its main group
  whose id is the command's or the placeholder's.
\<close>

definition is_new_window_entry :: "menu_node \<Rightarrow> bool" where
  "is_new_window_entry n =
     (menu_node_id n = CommandId OPEN_NEW_WINDOW \<or> menu_node_id n = menu_node_id placeholder)"

definition new_window_entries :: "'n state \<Rightarrow> menu_node list" where
  "new_window_entries s =
     filter is_new_window_entry (menuRegistry s SKETCHBOOK__CONTEXT__MAIN_GROUP)"

text \<open>
  What the dispose of a disposable calls, for the trace.
\<close>

fun disposal_effect :: "disposable \<Rightarrow> 'n effect" where
  "disposal_effect (DoUnregisterMenuNode i) = UnregisterMenuNode i"
| "disposal_effect (DoUnregisterMenuAction c) = UnregisterMenuAction c"

text \<open>
  The anchor element of an invocation: \<^verbatim>\<open>arg.event.target\<close>, when there is one.
\<close>

definition anchor_element :: "'n invocation_arg \<Rightarrow> 'n element option" where
  "anchor_element arg =
     (case arg of
        Object a \<Rightarrow> (case event a of None \<Rightarrow> None | Some ev \<Rightarrow> target ev)
      | _ \<Rightarrow> None)"

text \<open>The id that the dispose of a disposable unregisters.\<close>

fun disposable_id :: "disposable \<Rightarrow> menu_id" where
  "disposable_id (DoUnregisterMenuNode i) = i"
| "disposable_id (DoUnregisterMenuAction c) = CommandId c"

text \<open>
  The collection and the registry go together: the collection is empty and no group
  has an open-in-new-window entry, or the collection holds the disposable of the one
  entry that the main group has.
\<close>

definition registration_inv :: "'n state \<Rightarrow> bool" where
  "registration_inv s =
     ((\<forall>p. p \<noteq> SKETCHBOOK__CONTEXT__MAIN_GROUP \<longrightarrow> filter is_new_window_entry (menuRegistry s p) = []) \<and>
      (toDisposeBeforeNewContextMenu s = [] \<and> new_window_entries s = []
       \<or> toDisposeBeforeNewContextMenu s = [DoUnregisterMenuNode (menu_node_id placeholder)]
           \<and> new_window_entries s = [placeholder]
       \<or> toDisposeBeforeNewContextMenu s = [DoUnregisterMenuAction OPEN_NEW_WINDOW]
           \<and> new_window_entries s = [openNewWindowAction]))"

subsection \<open>Example inputs\<close>

text \<open>
  A click on the sketch directory \<^verbatim>\<open>Blink\<close> while the sketch \<^verbatim>\<open>Fade\<close> is open, with
  and without an element under the click, and an argument that has no event.
\<close>

definition example_node :: tree_node where
  "example_node =
     \<lparr>uri = URI ''file:///sketchbook/Blink'', node_id = ''/sketchbook/Blink'',
      isSketchDir = True, selectable = True\<rparr>"

definition example_element :: "int element" where
  "example_element =
     \<lparr>getBoundingClientRect = \<lparr>rect_left = 10, rect_top = 20\<rparr>, offsetHeight = 16\<rparr>"

definition example_click :: "int command_arg" where
  "example_click =
     \<lparr>node = Some (Some example_node), event = Some \<lparr>target = Some example_element\<rparr>\<rparr>"

definition example_click_no_anchor :: "int command_arg" where
  "example_click_no_anchor =
     \<lparr>node = Some (Some example_node), event = Some \<lparr>target = None\<rparr>\<rparr>"

definition example_click_no_event :: "int command_arg" where
  "example_click_no_event = \<lparr>node = Some (Some example_node), event = None\<rparr>"

definition example_env :: env where
  "example_env =
     \<lparr>autoReveal = True,
      currentWidget = Some (Navigatable (Some (URI ''file:///sketchbook/Blink''))),
      revealFile = (\<lambda>u. if u = URI ''file:///sketchbook/Blink'' then Some example_node else None),
      currentSketch = Some \<lparr>sketch_uri = ''file:///sketchbook/Fade''\<rparr>,
      toUnderlyingResource = (\<lambda>u. u),
      openPath = (\<lambda>p. [])\<rparr>"

section \<open>Properties\<close>

subsection \<open>Auxiliary facts\<close>

lemma removeNode_new_window_absent:
  assumes "filter is_new_window_entry ns = []" and "\<And>n. menu_node_id n = i \<Longrightarrow> is_new_window_entry n"
  shows "removeNode i ns = ns"
  using assms by (induction ns) (auto split: if_splits)

lemma filter_removeNode_single:
  assumes "filter is_new_window_entry ns = [x]" and "menu_node_id x = i"
  shows "filter is_new_window_entry (removeNode i ns) = []"
  using assms
proof (induction ns)
  case Nil
  then show ?case by simp
next
  case (Cons n ns)
  show ?case
  proof (cases "is_new_window_entry n")
    case True
    with Cons.prems have "n = x" and "filter is_new_window_entry ns = []" by auto
    with Cons.prems show ?thesis by simp
  next
    case False
    with Cons.prems have "filter is_new_window_entry ns = [x]" by simp
    moreover from False Cons.prems have "menu_node_id n \<noteq> i"
      by (metis filter_eq_ConsD is_new_window_entry_def)
    ultimately show ?thesis using Cons.IH Cons.prems False by simp
  qed
qed

lemma is_new_window_entry_placeholder: "is_new_window_entry placeholder"
  by (simp add: is_new_window_entry_def)

lemma is_new_window_entry_action: "is_new_window_entry openNewWindowAction"
  by (simp add: is_new_window_entry_def openNewWindowAction_def)

lemma dispose_clears:
  assumes "registration_inv s"
  shows "toDisposeBeforeNewContextMenu (dispose s) = []"
    and "\<And>p. filter is_new_window_entry (menuRegistry (dispose s) p) = []"
    and "selectedNodes (dispose s) = selectedNodes s"
proof -
  show "toDisposeBeforeNewContextMenu (dispose s) = []" by (simp add: dispose_def)
  show "selectedNodes (dispose s) = selectedNodes s"
    using assms
    by (auto simp: registration_inv_def dispose_def unregisterMenuNode_def unregisterMenuAction_def
        removeNodes_def emit_def)
  fix p
  show "filter is_new_window_entry (menuRegistry (dispose s) p) = []"
  proof (cases "p = SKETCHBOOK__CONTEXT__MAIN_GROUP")
    case True
    from assms consider
        "toDisposeBeforeNewContextMenu s = []" "new_window_entries s = []"
      | "toDisposeBeforeNewContextMenu s = [DoUnregisterMenuNode (menu_node_id placeholder)]"
        "new_window_entries s = [placeholder]"
      | "toDisposeBeforeNewContextMenu s = [DoUnregisterMenuAction OPEN_NEW_WINDOW]"
        "new_window_entries s = [openNewWindowAction]"
      by (auto simp: registration_inv_def)
    then show ?thesis
    proof cases
      case 1
      then show ?thesis using True by (simp add: dispose_def new_window_entries_def)
    next
      case 2
      from 2(2) have "filter is_new_window_entry
          (removeNode (menu_node_id placeholder) (menuRegistry s SKETCHBOOK__CONTEXT__MAIN_GROUP)) = []"
        unfolding new_window_entries_def by (rule filter_removeNode_single) simp
      with 2(1) True show ?thesis
        by (simp add: dispose_def unregisterMenuNode_def removeNodes_def emit_def)
    next
      case 3
      from 3(2) have "filter is_new_window_entry
          (removeNode (CommandId OPEN_NEW_WINDOW) (menuRegistry s SKETCHBOOK__CONTEXT__MAIN_GROUP)) = []"
        unfolding new_window_entries_def
        by (rule filter_removeNode_single) (simp add: openNewWindowAction_def)
      with 3(1) True show ?thesis
        by (simp add: dispose_def unregisterMenuAction_def removeNodes_def emit_def)
    qed
  next
    case False
    with assms have none: "filter is_new_window_entry (menuRegistry s p) = []"
      by (simp add: registration_inv_def)
    have "removeNode i (menuRegistry s p) = menuRegistry s p"
      if "\<And>n. menu_node_id n = i \<Longrightarrow> is_new_window_entry n" for i
      using none that by (rule removeNode_new_window_absent)
    then show ?thesis
      using assms none
      by (auto simp: registration_inv_def dispose_def unregisterMenuNode_def unregisterMenuAction_def
        removeNodes_def emit_def is_new_window_entry_def)
  qed
qed

lemma fold_run_disposable_frame:
  "selectedNodes (fold run_disposable ds s) = selectedNodes s"
  "toDisposeBeforeNewContextMenu (fold run_disposable ds s) = toDisposeBeforeNewContextMenu s"
  "trace (fold run_disposable ds s) = trace s @ map disposal_effect ds"
proof (induction ds arbitrary: s)
  case Nil
  {
    case 1 show ?case by simp
  next
    case 2 show ?case by simp
  next
    case 3 show ?case by simp
  }
next
  case (Cons d ds)
  {
    case 1 show ?case
      by (cases d) (simp_all add: Cons.IH unregisterMenuNode_def unregisterMenuAction_def
          removeNodes_def emit_def)
  next
    case 2 show ?case
      by (cases d) (simp_all add: Cons.IH unregisterMenuNode_def unregisterMenuAction_def
          removeNodes_def emit_def)
  next
    case 3 show ?case
      by (cases d) (simp_all add: Cons.IH unregisterMenuNode_def unregisterMenuAction_def
          removeNodes_def emit_def)
  }
qed

lemma dispose_frame:
  "selectedNodes (dispose s) = selectedNodes s"
  "toDisposeBeforeNewContextMenu (dispose s) = []"
  "trace (dispose s) = trace s @ map disposal_effect (rev (toDisposeBeforeNewContextMenu s))"
  by (simp_all add: dispose_def fold_run_disposable_frame)

lemma dispose_empty:
  "toDisposeBeforeNewContextMenu s = [] \<Longrightarrow> dispose s = s"
  by (simp add: dispose_def)

lemma registration_inv_dispose:
  assumes "registration_inv s"
  shows "registration_inv (dispose s)"
  using dispose_clears(1,2)[OF assms]
  by (simp add: registration_inv_def new_window_entries_def)

lemma context_menu_cases:
  fixes s :: "('n::plus) state"
  obtains
    (no_anchor) "anchor_element arg = None"
      "snd (OPEN_SKETCHBOOK_CONTEXT_MENU_execute e arg s) = dispose s"
  | (threw) a c where "arg = Object a" "anchor_element arg = Some c"
      "isCurrentSketch e a = Inl TypeError"
      "OPEN_SKETCHBOOK_CONTEXT_MENU_execute e arg s = (Threw TypeError, dispose s)"
  | (current) a c opts where "arg = Object a" "anchor_element arg = Some c"
      "isCurrentSketch e a = Inr True"
      "OPEN_SKETCHBOOK_CONTEXT_MENU_execute e arg s =
         (Returned,
          render opts
            (push (DoUnregisterMenuNode (menu_node_id placeholder))
               (registerMenuNode SKETCHBOOK__CONTEXT__MAIN_GROUP placeholder (dispose s))))"
  | (other) a c opts where "arg = Object a" "anchor_element arg = Some c"
      "isCurrentSketch e a = Inr False"
      "OPEN_SKETCHBOOK_CONTEXT_MENU_execute e arg s =
         (Returned,
          render opts
            (push (DoUnregisterMenuAction OPEN_NEW_WINDOW)
               (registerMenuAction SKETCHBOOK__CONTEXT__MAIN_GROUP openNewWindowAction
                  (dispose s))))"
proof (cases "anchor_element arg")
  case None
  then have "snd (OPEN_SKETCHBOOK_CONTEXT_MENU_execute e arg s) = dispose s"
    by (auto simp: OPEN_SKETCHBOOK_CONTEXT_MENU_execute_def context_menu_until_await_def
        anchor_element_def Let_def split: option.splits invocation_arg.splits)
  with None show ?thesis by (rule no_anchor)
next
  case (Some c)
  then obtain a ev where a: "arg = Object a" "event a = Some ev" "target ev = Some c"
    by (auto simp: anchor_element_def split: option.splits invocation_arg.splits)
  then have run: "OPEN_SKETCHBOOK_CONTEXT_MENU_execute e arg s =
      context_menu_after_await e a c (dispose s)"
    by (simp add: OPEN_SKETCHBOOK_CONTEXT_MENU_execute_def context_menu_until_await_def Let_def)
  show ?thesis
  proof (cases "isCurrentSketch e a")
    case (Inl err)
    then have "isCurrentSketch e a = Inl TypeError"
      by (auto simp: isCurrentSketch_def split: option.splits)
    moreover from this run
    have "OPEN_SKETCHBOOK_CONTEXT_MENU_execute e arg s = (Threw TypeError, dispose s)"
      by (simp add: context_menu_after_await_def)
    ultimately show ?thesis using a(1) Some by (intro threw)
  next
    case (Inr b)
    show ?thesis
    proof (cases b)
      case True
      with Inr run show ?thesis
        by (intro current[OF a(1) Some]) (simp_all add: context_menu_after_await_def Let_def)
    next
      case False
      with Inr run show ?thesis
        by (intro other[OF a(1) Some]) (simp_all add: context_menu_after_await_def Let_def)
    qed
  qed
qed

lemma registered_placeholder:
  assumes "toDisposeBeforeNewContextMenu s = []"
    and "\<And>p. filter is_new_window_entry (menuRegistry s p) = []"
  shows "registration_inv
           (render opts
             (push (DoUnregisterMenuNode (menu_node_id placeholder))
               (registerMenuNode SKETCHBOOK__CONTEXT__MAIN_GROUP placeholder s)))"
    and "new_window_entries
           (render opts
             (push (DoUnregisterMenuNode (menu_node_id placeholder))
               (registerMenuNode SKETCHBOOK__CONTEXT__MAIN_GROUP placeholder s))) = [placeholder]"
  using assms is_new_window_entry_placeholder
  by (simp_all add: registration_inv_def new_window_entries_def render_def push_def
      registerMenuNode_def addNode_def emit_def)

lemma registered_action:
  assumes "toDisposeBeforeNewContextMenu s = []"
    and "\<And>p. filter is_new_window_entry (menuRegistry s p) = []"
  shows "registration_inv
           (render opts
             (push (DoUnregisterMenuAction OPEN_NEW_WINDOW)
               (registerMenuAction SKETCHBOOK__CONTEXT__MAIN_GROUP openNewWindowAction s)))"
    and "new_window_entries
           (render opts
             (push (DoUnregisterMenuAction OPEN_NEW_WINDOW)
               (registerMenuAction SKETCHBOOK__CONTEXT__MAIN_GROUP openNewWindowAction s)))
         = [openNewWindowAction]"
  using assms is_new_window_entry_action
  by (simp_all add: registration_inv_def new_window_entries_def render_def push_def
      registerMenuAction_def addNode_def emit_def)

lemma registration_inv_context_menu:
  fixes s :: "('n::plus) state"
  assumes "registration_inv s"
  shows "registration_inv (snd (OPEN_SKETCHBOOK_CONTEXT_MENU_execute e arg s))"
proof (cases e arg s rule: context_menu_cases)
  case no_anchor
  then show ?thesis using registration_inv_dispose[OF assms] by simp
next
  case (threw a c)
  then show ?thesis using registration_inv_dispose[OF assms] by simp
next
  case (current a c opts)
  then show ?thesis
    using registered_placeholder(1)[OF dispose_clears(1,2)[OF assms]] by simp
next
  case (other a c opts)
  then show ?thesis
    using registered_action(1)[OF dispose_clears(1,2)[OF assms]] by simp
qed

lemma registration_inv_handle:
  fixes s :: "('n::plus) state"
  assumes "registration_inv s"
  shows "registration_inv (handle ev s)"
proof (cases ev)
  case (ContextMenuCommand e arg)
  then show ?thesis using registration_inv_context_menu[OF assms] by simp
next
  case (OpenNewWindowCommand e arg)
  then show ?thesis
    using assms
    by (auto simp: OPEN_NEW_WINDOW_execute_def registration_inv_def new_window_entries_def
        fileService_toUnderlyingResource_def workspaceService_open_def emit_def
        split: option.splits invocation_arg.splits)
next
  case (RevealInFinderCommand e arg)
  then show ?thesis
    using assms
    by (auto simp: REVEAL_IN_FINDER_execute_def registration_inv_def new_window_entries_def
        shell_openPath_def emit_def split: option.splits invocation_arg.splits)
next
  case (CurrentWidgetChanged e)
  then show ?thesis
    using assms
    by (auto simp: onCurrentWidgetChangedHandler_def selectWidgetFileNode_def
        registration_inv_def new_window_entries_def model_revealFile_def selectNode_def emit_def
        split: option.splits widget.splits)
next
  case (PreferenceChanged preferenceName)
  then show ?thesis
    using assms
    by (auto simp: onPreferenceChanged_def mainMenuManager_update_def registration_inv_def
        new_window_entries_def emit_def)
qed

lemma registration_inv_initial: "registration_inv initial_state"
  by (simp add: registration_inv_def initial_state_def registerMenus_def super_registerMenus_def
      registerMenuAction_def unregisterMenuAction_def addNode_def removeNodes_def emit_def
      new_window_entries_def is_new_window_entry_def placeholder_def VIEW_VIEWS_def
      SKETCHBOOK__CONTEXT__MAIN_GROUP_def SKETCHBOOK__CONTEXT_def)

lemma reachable_registration_inv:
  fixes s :: "('n::plus) state"
  shows "reachable s \<Longrightarrow> registration_inv s"
  by (induction rule: reachable.induct) (simp_all add: registration_inv_initial registration_inv_handle)

lemma filter_out_absent:
  "filter P ns = [] \<Longrightarrow> filter (\<lambda>n. \<not> P n) ns = ns"
  by (induction ns) (auto split: if_splits)

lemma removeNode_single_filter:
  assumes "filter is_new_window_entry ns = [x]" and "menu_node_id x = i"
    and "\<And>n. menu_node_id n = i \<Longrightarrow> is_new_window_entry n"
  shows "removeNode i ns = filter (\<lambda>n. \<not> is_new_window_entry n) ns"
  using assms(1)
proof (induction ns)
  case Nil
  then show ?case by simp
next
  case (Cons n ns)
  show ?case
  proof (cases "is_new_window_entry n")
    case True
    with Cons.prems have "n = x" and "filter is_new_window_entry ns = []" by auto
    with True assms(2) show ?thesis by (simp add: filter_out_absent)
  next
    case False
    with Cons.prems have "filter is_new_window_entry ns = [x]" by simp
    moreover from False assms(3) have "menu_node_id n \<noteq> i" by blast
    ultimately show ?thesis using Cons.IH False by simp
  qed
qed

lemma fold_run_disposable_state:
  "fold run_disposable ds s =
     s\<lparr>menuRegistry := (\<lambda>p. fold removeNode (map disposable_id ds) (menuRegistry s p)),
       trace := trace s @ map disposal_effect ds\<rparr>"
proof (induction ds arbitrary: s)
  case Nil
  show ?case by simp
next
  case (Cons d ds)
  show ?case
    by (cases d)
      (simp_all add: Cons.IH unregisterMenuNode_def unregisterMenuAction_def removeNodes_def
        emit_def)
qed

lemma dispose_state:
  "dispose s =
     s\<lparr>menuRegistry :=
         (\<lambda>p. fold removeNode (map disposable_id (rev (toDisposeBeforeNewContextMenu s)))
                (menuRegistry s p)),
       toDisposeBeforeNewContextMenu := [],
       trace := trace s @ map disposal_effect (rev (toDisposeBeforeNewContextMenu s))\<rparr>"
  by (simp add: dispose_def fold_run_disposable_state)

lemma dispose_registry_reachable:
  assumes "registration_inv s"
  shows "menuRegistry (dispose s) p = filter (\<lambda>n. \<not> is_new_window_entry n) (menuRegistry s p)"
proof -
  from assms consider
      "toDisposeBeforeNewContextMenu s = []" "new_window_entries s = []"
    | "toDisposeBeforeNewContextMenu s = [DoUnregisterMenuNode (menu_node_id placeholder)]"
      "new_window_entries s = [placeholder]"
    | "toDisposeBeforeNewContextMenu s = [DoUnregisterMenuAction OPEN_NEW_WINDOW]"
      "new_window_entries s = [openNewWindowAction]"
    by (auto simp: registration_inv_def)
  then show ?thesis
  proof cases
    case 1
    have "filter is_new_window_entry (menuRegistry s p) = []"
      using assms 1(2)
      by (cases "p = SKETCHBOOK__CONTEXT__MAIN_GROUP")
        (simp_all add: registration_inv_def new_window_entries_def)
    then show ?thesis using 1(1) by (simp add: dispose_def filter_out_absent)
  next
    case 2
    have "removeNode (menu_node_id placeholder) (menuRegistry s p) =
        filter (\<lambda>n. \<not> is_new_window_entry n) (menuRegistry s p)"
    proof (cases "p = SKETCHBOOK__CONTEXT__MAIN_GROUP")
      case True
      from 2(2) show ?thesis
        unfolding new_window_entries_def True
        by (rule removeNode_single_filter) (simp_all add: is_new_window_entry_def)
    next
      case False
      with assms have none: "filter is_new_window_entry (menuRegistry s p) = []"
        by (simp add: registration_inv_def)
      then have "removeNode (menu_node_id placeholder) (menuRegistry s p) = menuRegistry s p"
        by (rule removeNode_new_window_absent) (simp add: is_new_window_entry_def)
      with none show ?thesis by (simp add: filter_out_absent)
    qed
    with 2(1) show ?thesis
      by (simp add: dispose_def unregisterMenuNode_def removeNodes_def emit_def)
  next
    case 3
    have "removeNode (CommandId OPEN_NEW_WINDOW) (menuRegistry s p) =
        filter (\<lambda>n. \<not> is_new_window_entry n) (menuRegistry s p)"
    proof (cases "p = SKETCHBOOK__CONTEXT__MAIN_GROUP")
      case True
      from 3(2) show ?thesis
        unfolding new_window_entries_def True
        by (rule removeNode_single_filter)
          (simp_all add: is_new_window_entry_def openNewWindowAction_def)
    next
      case False
      with assms have none: "filter is_new_window_entry (menuRegistry s p) = []"
        by (simp add: registration_inv_def)
      then have "removeNode (CommandId OPEN_NEW_WINDOW) (menuRegistry s p) = menuRegistry s p"
        by (rule removeNode_new_window_absent) (simp add: is_new_window_entry_def)
      with none show ?thesis by (simp add: filter_out_absent)
    qed
    with 3(1) show ?thesis
      by (simp add: dispose_def unregisterMenuAction_def removeNodes_def emit_def)
  qed
qed

lemma context_menu_no_anchor:
  fixes s :: "('n::plus) state"
  assumes "anchor_element arg = None"
  shows "OPEN_SKETCHBOOK_CONTEXT_MENU_execute e arg s =
           (if \<exists>a ev. arg = Object a \<and> event a = Some ev then Returned else Threw TypeError,
            dispose s)"
  using assms
  by (auto simp: OPEN_SKETCHBOOK_CONTEXT_MENU_execute_def context_menu_until_await_def
      anchor_element_def Let_def split: option.splits invocation_arg.splits)

lemmas example_defs =
  example_node_def example_element_def example_click_def example_click_no_anchor_def
  example_click_no_event_def example_env_def

lemmas service_defs =
  emit_def addNode_def removeNodes_def registerMenuNode_def registerMenuAction_def
  unregisterMenuNode_def unregisterMenuAction_def push_def dispose_def render_def
  selectNode_def model_revealFile_def fileService_toUnderlyingResource_def
  workspaceService_open_def shell_openPath_def mainMenuManager_update_def

lemmas menu_defs =
  initial_state_def registerMenus_def super_registerMenus_def VIEW_VIEWS_def
  SKETCHBOOK__CONTEXT__MAIN_GROUP_def SKETCHBOOK__CONTEXT_def placeholder_def
  openNewWindowAction_def is_new_window_entry_def new_window_entries_def

subsection \<open>At most one open-in-new-window entry\<close>

text \<open>
  C1, as the code has it. As long as every event is handled to its end before the next
  one starts, the main group of the context menu holds at most one open-in-new-window
  entry and no other group holds any; disposing the collection takes the entry of the
  previous invocation out of the registry, and that is all the handler has done when it
  comes to wait for the current sketch. After two invocations in succession there is
  then exactly one entry when the second invocation had an anchor element and returned,
  and none otherwise.
\<close>

theorem new_window_entry_at_most_one:
  fixes s :: "('n::plus) state"
  assumes "reachable s"
  shows "length (new_window_entries s) \<le> 1
    \<and> (\<forall>p. p \<noteq> SKETCHBOOK__CONTEXT__MAIN_GROUP \<longrightarrow>
           filter is_new_window_entry (menuRegistry s p) = [])
    \<and> new_window_entries (dispose s) = []
    \<and> snd (context_menu_until_await arg s) = dispose s
    \<and> length (new_window_entries
          (snd (OPEN_SKETCHBOOK_CONTEXT_MENU_execute e2 arg2
             (snd (OPEN_SKETCHBOOK_CONTEXT_MENU_execute e1 arg1 s))))) =
        (if anchor_element arg2 \<noteq> None
            \<and> fst (OPEN_SKETCHBOOK_CONTEXT_MENU_execute e2 arg2
                  (snd (OPEN_SKETCHBOOK_CONTEXT_MENU_execute e1 arg1 s))) = Returned
         then 1 else 0)"
proof -
  from assms have inv: "registration_inv s" by (rule reachable_registration_inv)
  then have one: "length (new_window_entries s) \<le> 1"
    by (auto simp: registration_inv_def)
  from inv have others: "\<forall>p. p \<noteq> SKETCHBOOK__CONTEXT__MAIN_GROUP \<longrightarrow>
           filter is_new_window_entry (menuRegistry s p) = []"
    by (simp add: registration_inv_def)
  from dispose_clears(2)[OF inv] have cleared: "new_window_entries (dispose s) = []"
    by (simp add: new_window_entries_def)
  define s1 where "s1 = snd (OPEN_SKETCHBOOK_CONTEXT_MENU_execute e1 arg1 s)"
  have inv1: "registration_inv s1"
    unfolding s1_def using inv by (rule registration_inv_context_menu)
  have "length (new_window_entries (snd (OPEN_SKETCHBOOK_CONTEXT_MENU_execute e2 arg2 s1))) =
        (if anchor_element arg2 \<noteq> None
            \<and> fst (OPEN_SKETCHBOOK_CONTEXT_MENU_execute e2 arg2 s1) = Returned
         then 1 else 0)"
  proof (cases e2 arg2 s1 rule: context_menu_cases)
    case no_anchor
    then show ?thesis
      using dispose_clears(2)[OF inv1] by (simp add: new_window_entries_def)
  next
    case (threw a c)
    then show ?thesis
      using dispose_clears(2)[OF inv1] by (simp add: new_window_entries_def)
  next
    case (current a c opts)
    then show ?thesis
      using registered_placeholder(2)[OF dispose_clears(1,2)[OF inv1]] by simp
  next
    case (other a c opts)
    then show ?thesis
      using registered_action(2)[OF dispose_clears(1,2)[OF inv1]] by simp
  qed
  moreover have "snd (context_menu_until_await arg s) = dispose s"
    by (simp add: context_menu_until_await_def Let_def
        split: invocation_arg.splits option.splits)
  ultimately show ?thesis using one others cleared unfolding s1_def by blast
qed

theorem new_window_entry_at_most_one_witness:
  "reachable (initial_state :: int state)
   \<and> length (new_window_entries (initial_state :: int state)) \<le> 1
   \<and> length (new_window_entries
          (snd (OPEN_SKETCHBOOK_CONTEXT_MENU_execute example_env (Object example_click)
             (snd (OPEN_SKETCHBOOK_CONTEXT_MENU_execute example_env (Object example_click)
                (initial_state :: int state)))))) = 1"
proof -
  have r: "reachable (initial_state :: int state)" by (rule reachable.initial)
  have a: "anchor_element (Object example_click) \<noteq> None"
    by (simp add: anchor_element_def example_defs)
  have f: "fst (OPEN_SKETCHBOOK_CONTEXT_MENU_execute example_env (Object example_click)
             (snd (OPEN_SKETCHBOOK_CONTEXT_MENU_execute example_env (Object example_click)
                (initial_state :: int state)))) = Returned"
    by (simp add: OPEN_SKETCHBOOK_CONTEXT_MENU_execute_def context_menu_until_await_def
        context_menu_after_await_def isCurrentSketch_def Let_def example_defs)
  show ?thesis
    using r a f
      new_window_entry_at_most_one[OF r, of "Object example_click" example_env
        "Object example_click" example_env "Object example_click"]
    by simp
qed

text \<open>
  Two ways in which the claim as stated fails. In the first, the second of two
  invocations in succession has no anchor element: the entry of the first one is
  disposed and no new one is registered, so no entry is left, not one. In the second,
  two clicks follow each other so closely that the second invocation starts while the
  first is still waiting for the current sketch: both have disposed an empty collection
  by the time either registers, and two entries are live.
\<close>

theorem two_invocations_counterexample:
  "length (new_window_entries
     (snd (OPEN_SKETCHBOOK_CONTEXT_MENU_execute example_env (Object example_click_no_anchor)
       (snd (OPEN_SKETCHBOOK_CONTEXT_MENU_execute example_env (Object example_click)
          (initial_state :: int state)))))) \<noteq> 1
   \<and> fst (context_menu_until_await (Object example_click) (initial_state :: int state))
       = AwaitingCurrentSketch example_click example_element
   \<and> fst (context_menu_until_await (Object example_click)
          (snd (context_menu_until_await (Object example_click) (initial_state :: int state))))
       = AwaitingCurrentSketch example_click example_element
   \<and> length (new_window_entries
        (snd (context_menu_after_await example_env example_click example_element
          (snd (context_menu_after_await example_env example_click example_element
            (snd (context_menu_until_await (Object example_click)
              (snd (context_menu_until_await (Object example_click)
                 (initial_state :: int state)))))))))) = 2"
  by (simp add: OPEN_SKETCHBOOK_CONTEXT_MENU_execute_def context_menu_until_await_def
      context_menu_after_await_def isCurrentSketch_def Let_def
      example_defs service_defs menu_defs)

subsection \<open>The two variants of the entry\<close>

text \<open>
  C2. When the handler is invoked on a node with an anchor element, the entry it leaves
  registered is the placeholder, which triggers no command, if there is a current sketch
  whose URI is the string of the node's URI, and otherwise the action bound to the
  open-in-new-window command.
\<close>

theorem context_menu_entry_variant:
  fixes s :: "('n::plus) state"
  assumes "reachable s"
    and "anchor_element (Object a) = Some c" and "node a = Some (Some n)"
  shows "new_window_entries (snd (OPEN_SKETCHBOOK_CONTEXT_MENU_execute e (Object a) s)) =
           [if (\<exists>sk. currentSketch e = Some sk \<and> sketch_uri sk = toString (uri n))
            then placeholder else openNewWindowAction]
    \<and> menu_node_command placeholder = None
    \<and> menu_node_command openNewWindowAction = Some OPEN_NEW_WINDOW"
proof -
  from assms(1) have inv: "registration_inv s" by (rule reachable_registration_inv)
  have cur: "isCurrentSketch e a =
      Inr (\<exists>sk. currentSketch e = Some sk \<and> sketch_uri sk = toString (uri n))"
    using assms(3) by (simp add: isCurrentSketch_def split: option.splits)
  have "new_window_entries (snd (OPEN_SKETCHBOOK_CONTEXT_MENU_execute e (Object a) s)) =
           [if (\<exists>sk. currentSketch e = Some sk \<and> sketch_uri sk = toString (uri n))
            then placeholder else openNewWindowAction]"
  proof (cases e "Object a" s rule: context_menu_cases)
    case no_anchor
    with assms(2) show ?thesis by simp
  next
    case (threw a' c')
    with cur show ?thesis by simp
  next
    case (current a' c' opts)
    with cur show ?thesis
      using registered_placeholder(2)[OF dispose_clears(1,2)[OF inv]] by auto
  next
    case (other a' c' opts)
    with cur show ?thesis
      using registered_action(2)[OF dispose_clears(1,2)[OF inv]] by auto
  qed
  then show ?thesis by (simp add: placeholder_def openNewWindowAction_def)
qed

theorem context_menu_entry_variant_witness:
  "reachable (initial_state :: int state)
   \<and> anchor_element (Object example_click) = Some example_element
   \<and> node example_click = Some (Some example_node)
   \<and> new_window_entries
        (snd (OPEN_SKETCHBOOK_CONTEXT_MENU_execute example_env (Object example_click)
           (initial_state :: int state)))
      = [ActionMenuNode OPEN_NEW_WINDOW (Label OPEN_NEW_WINDOW) None]
   \<and> new_window_entries
        (snd (OPEN_SKETCHBOOK_CONTEXT_MENU_execute
           (example_env\<lparr>currentSketch := Some \<lparr>sketch_uri = ''file:///sketchbook/Blink''\<rparr>\<rparr>)
           (Object example_click) (initial_state :: int state)))
      = [PlaceholderMenuNode [''arduino-sketchbook--context'', ''0_main''] (Label OPEN_NEW_WINDOW)]"
proof -
  have r: "reachable (initial_state :: int state)" by (rule reachable.initial)
  have an: "anchor_element (Object example_click) = Some example_element"
    by (simp add: anchor_element_def example_click_def)
  have nd: "node example_click = Some (Some example_node)"
    by (simp add: example_click_def)
  show ?thesis
    using r an nd
      context_menu_entry_variant[OF r an nd, of example_env]
      context_menu_entry_variant[OF r an nd,
        of "example_env\<lparr>currentSketch := Some \<lparr>sketch_uri = ''file:///sketchbook/Blink''\<rparr>\<rparr>"]
    by (simp add: example_env_def example_node_def placeholder_def openNewWindowAction_def
        SKETCHBOOK__CONTEXT__MAIN_GROUP_def SKETCHBOOK__CONTEXT_def)
qed

subsection \<open>Tab change: reveal and select\<close>

text \<open>
  C3. On a tab change with auto-reveal on and a widget that has a resource URI, the tree
  model is asked to reveal the file of that URI; a selectable node it returns becomes the
  only selected node, and when it returns no node or one that is not selectable nothing
  but the request happens. The promise of \<^verbatim>\<open>selectWidgetFileNode\<close> is never rejected.
\<close>

theorem tab_change_reveal_and_select:
  assumes "autoReveal e" and "currentWidget e = Some (Navigatable (Some u))"
  shows "onCurrentWidgetChangedHandler e s =
           (case revealFile e u of
              Some n \<Rightarrow>
                if selectable n
                then s\<lparr>selectedNodes := [n], trace := trace s @ [RevealFile u, SelectNode n]\<rparr>
                else s\<lparr>trace := trace s @ [RevealFile u]\<rparr>
            | None \<Rightarrow> s\<lparr>trace := trace s @ [RevealFile u]\<rparr>)
    \<and> fst (selectWidgetFileNode e (currentWidget e) s) = Returned"
  using assms
  by (simp add: onCurrentWidgetChangedHandler_def selectWidgetFileNode_def model_revealFile_def
      selectNode_def emit_def split: option.splits)

theorem tab_change_reveal_and_select_witness:
  "autoReveal example_env
   \<and> currentWidget example_env = Some (Navigatable (Some (URI ''file:///sketchbook/Blink'')))
   \<and> selectedNodes (onCurrentWidgetChangedHandler example_env (initial_state :: int state))
       = [example_node]
   \<and> selectedNodes
        (onCurrentWidgetChangedHandler
           (example_env\<lparr>revealFile := (\<lambda>u. None)\<rparr>) (initial_state :: int state))
       = selectedNodes (initial_state :: int state)"
proof -
  have a: "autoReveal example_env" "autoReveal (example_env\<lparr>revealFile := (\<lambda>u. None)\<rparr>)"
    by (simp_all add: example_env_def)
  have w: "currentWidget example_env = Some (Navigatable (Some (URI ''file:///sketchbook/Blink'')))"
    "currentWidget (example_env\<lparr>revealFile := (\<lambda>u. None)\<rparr>)
       = Some (Navigatable (Some (URI ''file:///sketchbook/Blink'')))"
    by (simp_all add: example_env_def)
  show ?thesis
    using a(1) w(1)
      tab_change_reveal_and_select[OF a(1) w(1), of "initial_state :: int state"]
      tab_change_reveal_and_select[OF a(2) w(2), of "initial_state :: int state"]
    by (simp add: example_env_def example_node_def)
qed

subsection \<open>The guards of the two commands\<close>

text \<open>
  C4, as the code has it. The enablement and the visibility guard of the
  open-in-new-window and of the reveal-in-file-system command are one function of the
  argument. On a falsy argument and on an object they answer whether the argument is
  truthy, has a \<^verbatim>\<open>node\<close> property and the node is a sketch directory: false on a falsy
  argument, on an object without a node (no property, or \<^verbatim>\<open>undefined\<close>) and on a node
  that is not a sketch directory. On a truthy primitive they throw a \<^verbatim>\<open>TypeError\<close>.
\<close>

theorem new_window_and_reveal_guards:
  "OPEN_NEW_WINDOW_isEnabled arg =
     (if arg = Primitive then Inl TypeError else Inr (carries_sketch_dir_node arg))
   \<and> OPEN_NEW_WINDOW_isVisible arg = OPEN_NEW_WINDOW_isEnabled arg
   \<and> REVEAL_IN_FINDER_isEnabled arg = OPEN_NEW_WINDOW_isEnabled arg
   \<and> REVEAL_IN_FINDER_isVisible arg = OPEN_NEW_WINDOW_isEnabled arg
   \<and> OPEN_NEW_WINDOW_isEnabled (Falsy :: 'n invocation_arg) = Inr False
   \<and> OPEN_NEW_WINDOW_isEnabled (Object (a\<lparr>node := None\<rparr>)) = Inr False
   \<and> OPEN_NEW_WINDOW_isEnabled (Object (a\<lparr>node := Some None\<rparr>)) = Inr False
   \<and> OPEN_NEW_WINDOW_isEnabled (Object (a\<lparr>node := Some (Some (n\<lparr>isSketchDir := False\<rparr>))\<rparr>))
       = Inr False
   \<and> OPEN_NEW_WINDOW_isEnabled (Object (a\<lparr>node := Some (Some (n\<lparr>isSketchDir := True\<rparr>))\<rparr>))
       = Inr True"
  by (cases arg)
    (auto simp: OPEN_NEW_WINDOW_isEnabled_def OPEN_NEW_WINDOW_isVisible_def
      REVEAL_IN_FINDER_isEnabled_def REVEAL_IN_FINDER_isVisible_def carries_sketch_dir_node_def
      SketchDirNode_is_def split: option.splits)

theorem new_window_and_reveal_guards_witness:
  "OPEN_NEW_WINDOW_isEnabled (Object example_click) = Inr True
   \<and> REVEAL_IN_FINDER_isVisible (Object example_click) = Inr True
   \<and> OPEN_NEW_WINDOW_isVisible (Object (example_click\<lparr>node := None\<rparr>)) = Inr False
   \<and> REVEAL_IN_FINDER_isEnabled (Falsy :: int invocation_arg) = Inr False
   \<and> REVEAL_IN_FINDER_isVisible (Primitive :: int invocation_arg) = Inl TypeError"
proof -
  have c: "carries_sketch_dir_node (Object example_click)"
    by (simp add: carries_sketch_dir_node_def example_click_def example_node_def)
  have n: "\<not> carries_sketch_dir_node (Object (example_click\<lparr>node := None\<rparr>))"
    "\<not> carries_sketch_dir_node (Falsy :: int invocation_arg)"
    by (simp_all add: carries_sketch_dir_node_def)
  show ?thesis
    using c n
      new_window_and_reveal_guards[of "Object example_click" example_click example_node]
      new_window_and_reveal_guards[of "Object (example_click\<lparr>node := None\<rparr>)" example_click
        example_node]
      new_window_and_reveal_guards[of "Falsy :: int invocation_arg" example_click example_node]
      new_window_and_reveal_guards[of "Primitive :: int invocation_arg" example_click
        example_node]
    by auto
qed

text \<open>
  On a truthy primitive, which has no node, the guards do not return false: they throw.
\<close>

theorem guards_primitive_counterexample:
  "OPEN_NEW_WINDOW_isEnabled (Primitive :: int invocation_arg) \<noteq> Inr False
   \<and> OPEN_NEW_WINDOW_isVisible (Primitive :: int invocation_arg) \<noteq> Inr False
   \<and> REVEAL_IN_FINDER_isEnabled (Primitive :: int invocation_arg) \<noteq> Inr False
   \<and> REVEAL_IN_FINDER_isVisible (Primitive :: int invocation_arg) \<noteq> Inr False
   \<and> \<not> carries_sketch_dir_node (Primitive :: int invocation_arg)"
  by (simp add: OPEN_NEW_WINDOW_isEnabled_def OPEN_NEW_WINDOW_isVisible_def
      REVEAL_IN_FINDER_isEnabled_def REVEAL_IN_FINDER_isVisible_def carries_sketch_dir_node_def)

subsection \<open>No anchor element\<close>

text \<open>
  C5, as the code has it. When the invocation has no anchor element the handler renders
  no menu and registers no entry, but it has already disposed the collection: the state
  it leaves is the state it found with the collection emptied, the trace extended by
  the unregistrations of the disposables, and the registry without the nodes these
  unregistrations take out; the selection and everything else are as before. In a
  reachable state the registry loses its open-in-new-window entry and keeps every other
  entry of every group. The whole state is unchanged when the collection was empty. The
  handler returns when the event has no target, and throws a \<^verbatim>\<open>TypeError\<close> when the
  argument has no event.
\<close>

theorem no_anchor_disposes_only:
  fixes s :: "('n::plus) state"
  assumes "anchor_element arg = None"
  shows "snd (OPEN_SKETCHBOOK_CONTEXT_MENU_execute e arg s) = dispose s
    \<and> fst (OPEN_SKETCHBOOK_CONTEXT_MENU_execute e arg s) =
        (if \<exists>a ev. arg = Object a \<and> event a = Some ev then Returned else Threw TypeError)
    \<and> dispose s =
        s\<lparr>menuRegistry :=
            (\<lambda>p. fold removeNode (map disposable_id (rev (toDisposeBeforeNewContextMenu s)))
                   (menuRegistry s p)),
          toDisposeBeforeNewContextMenu := [],
          trace := trace s @ map disposal_effect (rev (toDisposeBeforeNewContextMenu s))\<rparr>
    \<and> (toDisposeBeforeNewContextMenu s = [] \<longrightarrow> dispose s = s)
    \<and> (reachable s \<longrightarrow>
          (\<forall>p. menuRegistry (dispose s) p =
                 filter (\<lambda>n. \<not> is_new_window_entry n) (menuRegistry s p)))"
proof -
  have "reachable s \<longrightarrow>
          (\<forall>p. menuRegistry (dispose s) p =
                 filter (\<lambda>n. \<not> is_new_window_entry n) (menuRegistry s p))"
  proof (intro impI allI)
    fix p
    assume "reachable s"
    then have "registration_inv s" by (rule reachable_registration_inv)
    then show "menuRegistry (dispose s) p =
        filter (\<lambda>n. \<not> is_new_window_entry n) (menuRegistry s p)"
      by (rule dispose_registry_reachable)
  qed
  moreover have "toDisposeBeforeNewContextMenu s = [] \<longrightarrow> dispose s = s"
    by (simp add: dispose_empty)
  moreover note dispose_state[of s]
  ultimately show ?thesis
    by (simp only: context_menu_no_anchor[OF assms] fst_conv snd_conv simp_thms)
qed

theorem no_anchor_disposes_only_witness:
  "anchor_element (Object example_click_no_anchor) = None
   \<and> anchor_element (Object example_click_no_event) = None
   \<and> reachable
        (snd (OPEN_SKETCHBOOK_CONTEXT_MENU_execute example_env (Object example_click)
           (initial_state :: int state)))
   \<and> fst (OPEN_SKETCHBOOK_CONTEXT_MENU_execute example_env (Object example_click_no_anchor)
        (snd (OPEN_SKETCHBOOK_CONTEXT_MENU_execute example_env (Object example_click)
           (initial_state :: int state)))) = Returned
   \<and> fst (OPEN_SKETCHBOOK_CONTEXT_MENU_execute example_env (Object example_click_no_event)
        (snd (OPEN_SKETCHBOOK_CONTEXT_MENU_execute example_env (Object example_click)
           (initial_state :: int state)))) = Threw TypeError
   \<and> menuRegistry
        (snd (OPEN_SKETCHBOOK_CONTEXT_MENU_execute example_env (Object example_click_no_anchor)
          (snd (OPEN_SKETCHBOOK_CONTEXT_MENU_execute example_env (Object example_click)
             (initial_state :: int state)))))
        SKETCHBOOK__CONTEXT__MAIN_GROUP
      = [ActionMenuNode REVEAL_IN_FINDER (Label REVEAL_IN_FINDER) (Some ''0'')]
   \<and> OPEN_SKETCHBOOK_CONTEXT_MENU_execute example_env (Object example_click_no_anchor)
        (initial_state :: int state) = (Returned, initial_state)"
proof -
  define s1 :: "int state" where
    "s1 = snd (OPEN_SKETCHBOOK_CONTEXT_MENU_execute example_env (Object example_click)
             initial_state)"
  have an: "anchor_element (Object example_click_no_anchor) = None"
    by (simp add: anchor_element_def example_click_no_anchor_def)
  have ae: "anchor_element (Object example_click_no_event) = None"
    by (simp add: anchor_element_def example_click_no_event_def)
  have r0: "reachable (initial_state :: int state)" by (rule reachable.initial)
  have r1: "reachable s1"
    using reachable.after[OF r0, of "ContextMenuCommand example_env (Object example_click)"]
    by (simp add: s1_def)
  have em: "toDisposeBeforeNewContextMenu (initial_state :: int state) = []"
    by (simp add: initial_state_def registerMenus_def super_registerMenus_def
        registerMenuAction_def unregisterMenuAction_def addNode_def removeNodes_def emit_def)
  have reg: "menuRegistry s1 SKETCHBOOK__CONTEXT__MAIN_GROUP =
      [ActionMenuNode REVEAL_IN_FINDER (Label REVEAL_IN_FINDER) (Some ''0''),
       openNewWindowAction]"
    unfolding s1_def
    by (simp add: OPEN_SKETCHBOOK_CONTEXT_MENU_execute_def context_menu_until_await_def
        context_menu_after_await_def isCurrentSketch_def Let_def
        example_defs service_defs menu_defs)
  have ev: "\<exists>a ev. Object example_click_no_anchor = Object a \<and> event a = Some ev"
    by (simp add: example_click_no_anchor_def)
  have nev: "\<not> (\<exists>a ev. Object example_click_no_event = Object a \<and> event a = Some ev)"
    by (simp add: example_click_no_event_def)
  have eq0: "OPEN_SKETCHBOOK_CONTEXT_MENU_execute example_env (Object example_click_no_anchor)
        (initial_state :: int state) = (Returned, initial_state)"
    using no_anchor_disposes_only[OF an, of example_env "initial_state :: int state"] em ev
    by (metis prod.collapse)
  show ?thesis
    using an ae r1 ev nev reg eq0
      no_anchor_disposes_only[OF an, of example_env s1]
      no_anchor_disposes_only[OF ae, of example_env s1]
    unfolding s1_def [symmetric]
    by (simp add: is_new_window_entry_def openNewWindowAction_def placeholder_def)
qed

text \<open>
  After a first invocation that registered an entry, an invocation without an anchor
  element changes the main group of the registry; and an invocation whose argument has
  no event does not return silently.
\<close>

theorem no_anchor_counterexample:
  "menuRegistry
     (snd (OPEN_SKETCHBOOK_CONTEXT_MENU_execute example_env (Object example_click_no_anchor)
       (snd (OPEN_SKETCHBOOK_CONTEXT_MENU_execute example_env (Object example_click)
          (initial_state :: int state)))))
     SKETCHBOOK__CONTEXT__MAIN_GROUP
   \<noteq> menuRegistry
     (snd (OPEN_SKETCHBOOK_CONTEXT_MENU_execute example_env (Object example_click)
          (initial_state :: int state)))
     SKETCHBOOK__CONTEXT__MAIN_GROUP
   \<and> anchor_element (Object example_click_no_event) = None
   \<and> fst (OPEN_SKETCHBOOK_CONTEXT_MENU_execute example_env (Object example_click_no_event)
        (initial_state :: int state)) = Threw TypeError"
  by (simp add: OPEN_SKETCHBOOK_CONTEXT_MENU_execute_def context_menu_until_await_def
      context_menu_after_await_def isCurrentSketch_def Let_def anchor_element_def
      example_defs service_defs menu_defs)

subsection \<open>Tab change: frame\<close>

text \<open>
  C6. A tab change with auto-reveal off, or with a current widget that has no resource
  URI (none at all, not navigatable, or navigatable without a URI), leaves the selection
  and all the rest of the state as they were.
\<close>

theorem tab_change_frame:
  assumes "\<not> autoReveal e \<or> (\<forall>u. currentWidget e \<noteq> Some (Navigatable (Some u)))"
  shows "onCurrentWidgetChangedHandler e s = s"
  using assms
  by (auto simp: onCurrentWidgetChangedHandler_def selectWidgetFileNode_def
      split: option.splits widget.splits)

theorem tab_change_frame_witness:
  "\<not> autoReveal (example_env\<lparr>autoReveal := False\<rparr>)
   \<and> onCurrentWidgetChangedHandler (example_env\<lparr>autoReveal := False\<rparr>) (initial_state :: int state)
       = initial_state
   \<and> autoReveal (example_env\<lparr>currentWidget := Some (Navigatable None)\<rparr>)
   \<and> currentWidget (example_env\<lparr>currentWidget := Some (Navigatable None)\<rparr>)
       = Some (Navigatable None)
   \<and> onCurrentWidgetChangedHandler (example_env\<lparr>currentWidget := Some (Navigatable None)\<rparr>)
        (initial_state :: int state) = initial_state
   \<and> onCurrentWidgetChangedHandler (example_env\<lparr>currentWidget := Some OtherWidget\<rparr>)
        (initial_state :: int state) = initial_state
   \<and> onCurrentWidgetChangedHandler (example_env\<lparr>currentWidget := None\<rparr>)
        (initial_state :: int state) = initial_state"
proof -
  have h1: "\<not> autoReveal (example_env\<lparr>autoReveal := False\<rparr>)
      \<or> (\<forall>u. currentWidget (example_env\<lparr>autoReveal := False\<rparr>) \<noteq> Some (Navigatable (Some u)))"
    by simp
  have h2: "\<not> autoReveal (example_env\<lparr>currentWidget := Some (Navigatable None)\<rparr>)
      \<or> (\<forall>u. currentWidget (example_env\<lparr>currentWidget := Some (Navigatable None)\<rparr>)
              \<noteq> Some (Navigatable (Some u)))"
    by simp
  have h3: "\<not> autoReveal (example_env\<lparr>currentWidget := Some OtherWidget\<rparr>)
      \<or> (\<forall>u. currentWidget (example_env\<lparr>currentWidget := Some OtherWidget\<rparr>)
              \<noteq> Some (Navigatable (Some u)))"
    by simp
  have h4: "\<not> autoReveal (example_env\<lparr>currentWidget := None\<rparr>)
      \<or> (\<forall>u. currentWidget (example_env\<lparr>currentWidget := None\<rparr>)
              \<noteq> Some (Navigatable (Some u)))"
    by simp
  have on: "autoReveal (example_env\<lparr>currentWidget := Some (Navigatable None)\<rparr>)"
    by (simp add: example_env_def)
  show ?thesis
    using on
      tab_change_frame[OF h1, of "initial_state :: int state"]
      tab_change_frame[OF h2, of "initial_state :: int state"]
      tab_change_frame[OF h3, of "initial_state :: int state"]
      tab_change_frame[OF h4, of "initial_state :: int state"]
    by simp
qed

subsection \<open>Open in new window\<close>

text \<open>
  C7. Executing the open-in-new-window command on an argument with a node asks the file
  service for the underlying resource of the node's URI, then opens what the file
  service answered through the workspace service, and does nothing else.
\<close>

theorem open_new_window_resolves_then_opens:
  assumes "node a = Some (Some n)"
  shows "OPEN_NEW_WINDOW_execute e (Object a) s =
           (Returned,
            s\<lparr>trace := trace s @
                 [ToUnderlyingResource (uri n), WorkspaceOpen (toUnderlyingResource e (uri n))]\<rparr>)"
  using assms
  by (simp add: OPEN_NEW_WINDOW_execute_def fileService_toUnderlyingResource_def
      workspaceService_open_def emit_def)

theorem open_new_window_resolves_then_opens_witness:
  "node example_click = Some (Some example_node)
   \<and> OPEN_NEW_WINDOW_execute
        (example_env\<lparr>toUnderlyingResource := (\<lambda>u. URI ''file:///real/Blink'')\<rparr>)
        (Object example_click)
        \<lparr>menuRegistry = (\<lambda>p. []), toDisposeBeforeNewContextMenu = [], selectedNodes = [],
         trace = []\<rparr>
      = (Returned,
         \<lparr>menuRegistry = (\<lambda>p. []), toDisposeBeforeNewContextMenu = [], selectedNodes = [],
          trace = [ToUnderlyingResource (URI ''file:///sketchbook/Blink''),
                   WorkspaceOpen (URI ''file:///real/Blink'')]\<rparr>)"
proof -
  have nd: "node example_click = Some (Some example_node)"
    by (simp add: example_click_def)
  show ?thesis
    using nd
      open_new_window_resolves_then_opens[OF nd,
        of "example_env\<lparr>toUnderlyingResource := (\<lambda>u. URI ''file:///real/Blink'')\<rparr>"
           "\<lparr>menuRegistry = (\<lambda>p. []), toDisposeBeforeNewContextMenu = [], selectedNodes = [],
             trace = []\<rparr>"]
    by (simp add: example_node_def)
qed

subsection \<open>Order of the calls and the anchor\<close>

text \<open>
  C8. When the handler has an anchor element and returns, its calls are, in this order:
  the unregistrations of the disposables of the previous invocation, one registration
  (the placeholder or the action), and one rendering of the context menu at the anchor
  whose x is the left edge of the element's bounding box and whose y is the top edge
  plus the element's height.
\<close>

theorem context_menu_order_and_anchor:
  fixes s :: "('n::plus) state"
  assumes "anchor_element (Object a) = Some c"
    and "fst (OPEN_SKETCHBOOK_CONTEXT_MENU_execute e (Object a) s) = Returned"
  shows "trace (snd (OPEN_SKETCHBOOK_CONTEXT_MENU_execute e (Object a) s)) =
           trace s
           @ map disposal_effect (rev (toDisposeBeforeNewContextMenu s))
           @ [if isCurrentSketch e a = Inr True
              then RegisterMenuNode SKETCHBOOK__CONTEXT__MAIN_GROUP placeholder
              else RegisterMenuAction SKETCHBOOK__CONTEXT__MAIN_GROUP openNewWindowAction,
              Render
                \<lparr>menuPath = SKETCHBOOK__CONTEXT,
                 anchor =
                   \<lparr>anchor_x = rect_left (getBoundingClientRect c),
                    anchor_y = rect_top (getBoundingClientRect c) + offsetHeight c\<rparr>,
                 args = a\<rparr>]"
proof -
  from assms(1) obtain ev where ev: "event a = Some ev" "target ev = Some c"
    by (auto simp: anchor_element_def split: option.splits)
  then have run: "OPEN_SKETCHBOOK_CONTEXT_MENU_execute e (Object a) s =
      context_menu_after_await e a c (dispose s)"
    by (simp add: OPEN_SKETCHBOOK_CONTEXT_MENU_execute_def context_menu_until_await_def Let_def)
  from assms(2) obtain b where b: "isCurrentSketch e a = Inr b"
    unfolding run
    by (cases "isCurrentSketch e a") (auto simp: context_menu_after_await_def)
  show ?thesis
    unfolding run using b
    by (simp add: context_menu_after_await_def Let_def render_def push_def
        registerMenuNode_def registerMenuAction_def addNode_def emit_def dispose_frame)
qed

theorem context_menu_order_and_anchor_witness:
  "anchor_element (Object example_click) = Some example_element
   \<and> fst (OPEN_SKETCHBOOK_CONTEXT_MENU_execute example_env (Object example_click)
        (snd (OPEN_SKETCHBOOK_CONTEXT_MENU_execute
           (example_env\<lparr>currentSketch := Some \<lparr>sketch_uri = ''file:///sketchbook/Blink''\<rparr>\<rparr>)
           (Object example_click) (initial_state :: int state)))) = Returned
   \<and> drop (length (trace (snd (OPEN_SKETCHBOOK_CONTEXT_MENU_execute
           (example_env\<lparr>currentSketch := Some \<lparr>sketch_uri = ''file:///sketchbook/Blink''\<rparr>\<rparr>)
           (Object example_click) (initial_state :: int state)))))
       (trace (snd (OPEN_SKETCHBOOK_CONTEXT_MENU_execute example_env (Object example_click)
        (snd (OPEN_SKETCHBOOK_CONTEXT_MENU_execute
           (example_env\<lparr>currentSketch := Some \<lparr>sketch_uri = ''file:///sketchbook/Blink''\<rparr>\<rparr>)
           (Object example_click) (initial_state :: int state))))))
     = [UnregisterMenuNode (PlaceholderId [''arduino-sketchbook--context'', ''0_main'']),
        RegisterMenuAction [''arduino-sketchbook--context'', ''0_main'']
          (ActionMenuNode OPEN_NEW_WINDOW (Label OPEN_NEW_WINDOW) None),
        Render \<lparr>menuPath = [''arduino-sketchbook--context''],
                anchor = \<lparr>anchor_x = 10, anchor_y = 36\<rparr>, args = example_click\<rparr>]"
proof -
  define s1 :: "int state" where "s1 = snd (OPEN_SKETCHBOOK_CONTEXT_MENU_execute
           (example_env\<lparr>currentSketch := Some \<lparr>sketch_uri = ''file:///sketchbook/Blink''\<rparr>\<rparr>)
           (Object example_click) initial_state)"
  have an: "anchor_element (Object example_click) = Some example_element"
    by (simp add: anchor_element_def example_click_def)
  have rt: "fst (OPEN_SKETCHBOOK_CONTEXT_MENU_execute example_env (Object example_click) s1) = Returned"
    by (simp add: OPEN_SKETCHBOOK_CONTEXT_MENU_execute_def context_menu_until_await_def
        context_menu_after_await_def isCurrentSketch_def Let_def example_defs)
  have td: "toDisposeBeforeNewContextMenu s1 = [DoUnregisterMenuNode (menu_node_id placeholder)]"
    unfolding s1_def
    by (simp add: OPEN_SKETCHBOOK_CONTEXT_MENU_execute_def context_menu_until_await_def
        context_menu_after_await_def isCurrentSketch_def Let_def
        example_defs service_defs menu_defs)
  have cur: "isCurrentSketch example_env example_click \<noteq> Inr True"
    by (simp add: isCurrentSketch_def example_defs)
  show ?thesis
    using an rt td cur
      context_menu_order_and_anchor[OF an rt]
    unfolding s1_def [symmetric]
    by (simp add: example_element_def placeholder_def openNewWindowAction_def
        SKETCHBOOK__CONTEXT__MAIN_GROUP_def SKETCHBOOK__CONTEXT_def)
qed

subsection \<open>The guard of the context-menu command\<close>

text \<open>
  C9, as the code has it. The command that opens the context menu has the same guard,
  for enablement and for visibility, as the other two commands: on a falsy argument and
  on an object it answers whether the argument is truthy, has a \<^verbatim>\<open>node\<close> property and
  the node is a sketch directory, and on a truthy primitive it throws a
  \<^verbatim>\<open>TypeError\<close>. The command registry runs the handler only when the guard returned
  true: executed through the registry, the command runs its handler on an argument that
  carries a sketch directory and otherwise fails and leaves the state as it was, so
  whenever it changes the state (a menu rendered, an entry registered or disposed) the
  argument carries a sketch directory.
\<close>

theorem context_menu_guard:
  fixes s :: "('n::plus) state"
  shows "OPEN_SKETCHBOOK_CONTEXT_MENU_isEnabled arg =
     (if arg = Primitive then Inl TypeError else Inr (carries_sketch_dir_node arg))
   \<and> OPEN_SKETCHBOOK_CONTEXT_MENU_isVisible arg = OPEN_SKETCHBOOK_CONTEXT_MENU_isEnabled arg
   \<and> OPEN_SKETCHBOOK_CONTEXT_MENU_isEnabled arg = OPEN_NEW_WINDOW_isEnabled arg
   \<and> OPEN_SKETCHBOOK_CONTEXT_MENU_isEnabled arg = REVEAL_IN_FINDER_isEnabled arg
   \<and> OPEN_SKETCHBOOK_CONTEXT_MENU_isVisible arg = OPEN_NEW_WINDOW_isVisible arg
   \<and> OPEN_SKETCHBOOK_CONTEXT_MENU_isVisible arg = REVEAL_IN_FINDER_isVisible arg
   \<and> executeCommand OPEN_SKETCHBOOK_CONTEXT_MENU_isEnabled
        (OPEN_SKETCHBOOK_CONTEXT_MENU_execute e) arg s =
       (if carries_sketch_dir_node arg then OPEN_SKETCHBOOK_CONTEXT_MENU_execute e arg s
        else (Threw (if arg = Primitive then TypeError else NoActiveHandler), s))
   \<and> (snd (executeCommand OPEN_SKETCHBOOK_CONTEXT_MENU_isEnabled
              (OPEN_SKETCHBOOK_CONTEXT_MENU_execute e) arg s) \<noteq> s
        \<longrightarrow> carries_sketch_dir_node arg)"
proof -
  have g: "OPEN_SKETCHBOOK_CONTEXT_MENU_isEnabled arg =
     (if arg = Primitive then Inl TypeError else Inr (carries_sketch_dir_node arg))"
    by (cases arg)
      (auto simp: OPEN_SKETCHBOOK_CONTEXT_MENU_isEnabled_def carries_sketch_dir_node_def
        SketchDirNode_is_def split: option.splits)
  have same: "OPEN_SKETCHBOOK_CONTEXT_MENU_isVisible arg = OPEN_SKETCHBOOK_CONTEXT_MENU_isEnabled arg"
    "OPEN_SKETCHBOOK_CONTEXT_MENU_isEnabled arg = OPEN_NEW_WINDOW_isEnabled arg"
    "OPEN_SKETCHBOOK_CONTEXT_MENU_isEnabled arg = REVEAL_IN_FINDER_isEnabled arg"
    "OPEN_SKETCHBOOK_CONTEXT_MENU_isVisible arg = OPEN_NEW_WINDOW_isVisible arg"
    "OPEN_SKETCHBOOK_CONTEXT_MENU_isVisible arg = REVEAL_IN_FINDER_isVisible arg"
    by (simp_all add: OPEN_SKETCHBOOK_CONTEXT_MENU_isEnabled_def
        OPEN_SKETCHBOOK_CONTEXT_MENU_isVisible_def OPEN_NEW_WINDOW_isEnabled_def
        OPEN_NEW_WINDOW_isVisible_def REVEAL_IN_FINDER_isEnabled_def
        REVEAL_IN_FINDER_isVisible_def)
  have np: "\<not> carries_sketch_dir_node (Primitive :: 'n invocation_arg)"
    by (simp add: carries_sketch_dir_node_def)
  have d: "executeCommand OPEN_SKETCHBOOK_CONTEXT_MENU_isEnabled
        (OPEN_SKETCHBOOK_CONTEXT_MENU_execute e) arg s =
       (if carries_sketch_dir_node arg then OPEN_SKETCHBOOK_CONTEXT_MENU_execute e arg s
        else (Threw (if arg = Primitive then TypeError else NoActiveHandler), s))"
    using np by (auto simp: executeCommand_def g)
  have only: "snd (executeCommand OPEN_SKETCHBOOK_CONTEXT_MENU_isEnabled
              (OPEN_SKETCHBOOK_CONTEXT_MENU_execute e) arg s) \<noteq> s
        \<longrightarrow> carries_sketch_dir_node arg"
    unfolding d by simp
  show ?thesis
    using g same d only by (intro conjI)
qed

theorem context_menu_guard_witness:
  "OPEN_SKETCHBOOK_CONTEXT_MENU_isEnabled (Object example_click) = Inr True
   \<and> OPEN_SKETCHBOOK_CONTEXT_MENU_isVisible (Object (example_click\<lparr>node := Some None\<rparr>))
       = Inr False
   \<and> OPEN_SKETCHBOOK_CONTEXT_MENU_isEnabled (Falsy :: int invocation_arg) = Inr False
   \<and> executeCommand OPEN_SKETCHBOOK_CONTEXT_MENU_isEnabled
        (OPEN_SKETCHBOOK_CONTEXT_MENU_execute example_env)
        (Object (example_click\<lparr>node := Some None\<rparr>)) (initial_state :: int state)
       = (Threw NoActiveHandler, initial_state)
   \<and> executeCommand OPEN_SKETCHBOOK_CONTEXT_MENU_isEnabled
        (OPEN_SKETCHBOOK_CONTEXT_MENU_execute example_env)
        (Object example_click) (initial_state :: int state)
       = OPEN_SKETCHBOOK_CONTEXT_MENU_execute example_env (Object example_click) initial_state"
proof -
  have c: "carries_sketch_dir_node (Object example_click)"
    by (simp add: carries_sketch_dir_node_def example_click_def example_node_def)
  have n: "\<not> carries_sketch_dir_node (Object (example_click\<lparr>node := Some None\<rparr>))"
    "\<not> carries_sketch_dir_node (Falsy :: int invocation_arg)"
    by (simp_all add: carries_sketch_dir_node_def)
  note yes = context_menu_guard[of "Object example_click" example_env "initial_state :: int state"]
  note no = context_menu_guard[of "Object (example_click\<lparr>node := Some None\<rparr>)" example_env
        "initial_state :: int state"]
  note falsy = context_menu_guard[of "Falsy :: int invocation_arg" example_env
        "initial_state :: int state"]
  have 1: "OPEN_SKETCHBOOK_CONTEXT_MENU_isEnabled (Object example_click) = Inr True"
    using yes[THEN conjunct1] c by simp
  have 2: "OPEN_SKETCHBOOK_CONTEXT_MENU_isVisible (Object (example_click\<lparr>node := Some None\<rparr>))
       = Inr False"
    using no[THEN conjunct1] no[THEN conjunct2, THEN conjunct1] n(1) by simp
  have 3: "OPEN_SKETCHBOOK_CONTEXT_MENU_isEnabled (Falsy :: int invocation_arg) = Inr False"
    using falsy[THEN conjunct1] n(2) by simp
  have 4: "executeCommand OPEN_SKETCHBOOK_CONTEXT_MENU_isEnabled
        (OPEN_SKETCHBOOK_CONTEXT_MENU_execute example_env)
        (Object (example_click\<lparr>node := Some None\<rparr>)) (initial_state :: int state)
       = (Threw NoActiveHandler, initial_state)"
    using no[THEN conjunct2, THEN conjunct2, THEN conjunct2, THEN conjunct2, THEN conjunct2,
        THEN conjunct2, THEN conjunct1] n(1)
    by simp
  have 5: "executeCommand OPEN_SKETCHBOOK_CONTEXT_MENU_isEnabled
        (OPEN_SKETCHBOOK_CONTEXT_MENU_execute example_env)
        (Object example_click) (initial_state :: int state)
       = OPEN_SKETCHBOOK_CONTEXT_MENU_execute example_env (Object example_click) initial_state"
    using yes[THEN conjunct2, THEN conjunct2, THEN conjunct2, THEN conjunct2, THEN conjunct2,
        THEN conjunct2, THEN conjunct1] c
    by simp
  from 1 2 3 4 5 show ?thesis by (intro conjI)
qed

text \<open>
  On a truthy primitive the guards of the context-menu command give no answer: they
  throw.
\<close>

theorem context_menu_guard_counterexample:
  "OPEN_SKETCHBOOK_CONTEXT_MENU_isEnabled (Primitive :: int invocation_arg) = Inl TypeError
   \<and> OPEN_SKETCHBOOK_CONTEXT_MENU_isVisible (Primitive :: int invocation_arg) = Inl TypeError"
  by (simp add: OPEN_SKETCHBOOK_CONTEXT_MENU_isEnabled_def
      OPEN_SKETCHBOOK_CONTEXT_MENU_isVisible_def)

subsection \<open>Reveal in the file system\<close>

text \<open>
  C10. Executing the reveal-in-file-system command on an argument with a node passes the
  node's id to \<^verbatim>\<open>shell.openPath\<close> and does nothing else; what \<^verbatim>\<open>openPath\<close>
  answers makes no difference.
\<close>

theorem reveal_in_finder_opens_node_id:
  assumes "node a = Some (Some n)"
  shows "REVEAL_IN_FINDER_execute e (Object a) s =
           (Returned, s\<lparr>trace := trace s @ [OpenPath (node_id n)]\<rparr>)
    \<and> REVEAL_IN_FINDER_execute (e\<lparr>openPath := f\<rparr>) (Object a) s =
        REVEAL_IN_FINDER_execute e (Object a) s"
  using assms
  by (simp add: REVEAL_IN_FINDER_execute_def shell_openPath_def emit_def)

theorem reveal_in_finder_opens_node_id_witness:
  "node example_click = Some (Some example_node)
   \<and> REVEAL_IN_FINDER_execute (example_env\<lparr>openPath := (\<lambda>p. ''Failed to open path'')\<rparr>)
        (Object example_click)
        \<lparr>menuRegistry = (\<lambda>p. []), toDisposeBeforeNewContextMenu = [], selectedNodes = [],
         trace = []\<rparr>
      = (Returned,
         \<lparr>menuRegistry = (\<lambda>p. []), toDisposeBeforeNewContextMenu = [], selectedNodes = [],
          trace = [OpenPath ''/sketchbook/Blink'']\<rparr>)"
proof -
  have nd: "node example_click = Some (Some example_node)"
    by (simp add: example_click_def)
  show ?thesis
    using nd
      reveal_in_finder_opens_node_id[OF nd,
        of example_env
           "\<lparr>menuRegistry = (\<lambda>p. []), toDisposeBeforeNewContextMenu = [], selectedNodes = [],
             trace = []\<rparr>" "\<lambda>p. ''Failed to open path''"]
    by (simp add: example_node_def)
qed

end
